theory Spec2Isabelle
  imports Main
begin

section \<open>Strings\<close>

text \<open>
  A JavaScript string is modelled as a \<open>string\<close>, one \<open>char\<close> per UTF-16 code unit.
  The model covers ASCII text: the character classes below are the ASCII part of the
  regular expressions of \<open>server.js\<close> (\<open>\s\<close> also matches a few blanks beyond ASCII,
  which no ASCII input contains).
\<close>

definition isSpace :: "char \<Rightarrow> bool" where
  \<comment> \<open>\<open>/\s/\<close>: tab, line feed, vertical tab, form feed, carriage return, space\<close>
  "isSpace c \<longleftrightarrow> c \<in> set [CHR 0x09, CHR 0x0A, CHR 0x0B, CHR 0x0C, CHR 0x0D, CHR '' '']"

definition isDigit :: "char \<Rightarrow> bool" where
  \<comment> \<open>\<open>/\d/\<close>\<close>
  "isDigit c \<longleftrightarrow> c \<in> set ''0123456789''"

definition isDigitOrDot :: "char \<Rightarrow> bool" where
  \<comment> \<open>\<open>/[\d.]/\<close>\<close>
  "isDigitOrDot c \<longleftrightarrow> isDigit c \<or> c = CHR ''.''"

definition isLetter :: "char \<Rightarrow> bool" where
  \<comment> \<open>\<open>/[a-zA-Z]/\<close>\<close>
  "isLetter c \<longleftrightarrow> c \<in> set ''abcdefghijklmnopqrstuvwxyzABCDEFGHIJKLMNOPQRSTUVWXYZ''"

definition isAlnum :: "char \<Rightarrow> bool" where
  \<comment> \<open>\<open>/[a-zA-Z0-9]/\<close>\<close>
  "isAlnum c \<longleftrightarrow> isLetter c \<or> isDigit c"

fun digitChar :: "nat \<Rightarrow> char" where
  "digitChar n = ''0123456789'' ! (n mod 10)"

fun showNat :: "nat \<Rightarrow> string" where
  \<comment> \<open>the decimal text a template literal gives a non-negative integer\<close>
  "showNat n = (if n < 10 then [digitChar n] else showNat (n div 10) @ [digitChar n])"

declare showNat.simps [simp del]

fun join :: "string \<Rightarrow> string list \<Rightarrow> string" where
  \<comment> \<open>\<open>Array.prototype.join\<close>\<close>
  "join sep [] = []"
| "join sep [x] = x"
| "join sep (x # y # ys) = x @ sep @ join sep (y # ys)"

definition trim :: "string \<Rightarrow> string" where
  \<comment> \<open>\<open>String.prototype.trim\<close>\<close>
  "trim s = rev (dropWhile isSpace (rev (dropWhile isSpace s)))"

definition padEnd :: "nat \<Rightarrow> string \<Rightarrow> string" where
  \<comment> \<open>\<open>String.prototype.padEnd\<close> with the default filler, a space\<close>
  "padEnd n s = s @ replicate (n - length s) (CHR '' '')"

function split_from :: "string \<Rightarrow> string \<Rightarrow> string \<Rightarrow> string list" where
  \<comment> \<open>the pieces of \<open>s\<close> between the occurrences of a non-empty separator, read left to
      right; \<open>piece\<close> is the piece being read\<close>
  "split_from sep piece s =
     (if s = [] then [piece]
      else if sep \<noteq> [] \<and> take (length sep) s = sep
        then piece # split_from sep [] (drop (length sep) s)
      else split_from sep (piece @ [hd s]) (tl s))"
  by pat_completeness auto
termination
  by (relation "measure (\<lambda>(sep, piece, s). length s)") auto

declare split_from.simps [simp del]

definition split :: "string \<Rightarrow> string \<Rightarrow> string list" where
  \<comment> \<open>\<open>String.prototype.split\<close>: an empty separator splits into single code units\<close>
  "split sep s = (if sep = [] then map (\<lambda>c. [c]) s else split_from sep [] s)"

section \<open>Tokenizer\<close>

datatype token_type = NUMBER | IDENT | OPERATOR

record token =
  tok_type :: token_type
  tok_value :: string

text \<open>
  What the code throws, one constructor per \<open>throw\<close>. The last one is the \<open>TypeError\<close> of
  \<open>expr.trim()\<close> in \<open>generateFinalCode\<close> when a line holds an equals sign but not the
  separator of \<open>split\<close>, so that \<open>expr\<close> is undefined.
\<close>

datatype error =
    InvalidNumberFormat
  | InvalidCharacter char nat
  | Expected token_type string "token_type option"
  | UnexpectedEndOfInput
  | UnexpectedToken token_type string
  | ExtraTokens
  | UnknownNodeType
  | TrimOfUndefined

fun type_name :: "token_type \<Rightarrow> string" where
  "type_name NUMBER = ''NUMBER''"
| "type_name IDENT = ''IDENT''"
| "type_name OPERATOR = ''OPERATOR''"

function skipWhitespace :: "string \<Rightarrow> nat \<Rightarrow> nat" where
  "skipWhitespace input i =
     (if i < length input \<and> isSpace (input ! i) then skipWhitespace input (i + 1) else i)"
  by pat_completeness auto
termination
  by (relation "measure (\<lambda>(input, i). length input - i)") auto

declare skipWhitespace.simps [simp del]

function scanWhile :: "(char \<Rightarrow> bool) \<Rightarrow> string \<Rightarrow> nat \<Rightarrow> string \<Rightarrow> string \<times> nat" where
  \<comment> \<open>\<open>while (i < input.length && p(input[i])) acc += input[i++]\<close>\<close>
  "scanWhile p input i acc =
     (if i < length input \<and> p (input ! i) then scanWhile p input (i + 1) (acc @ [input ! i])
      else (acc, i))"
  by pat_completeness auto
termination
  by (relation "measure (\<lambda>(p, input, i, acc). length input - i)") auto

declare scanWhile.simps [simp del]

lemma skipWhitespace_ge: "i \<le> skipWhitespace input i"
proof (induction input i rule: skipWhitespace.induct)
  case (1 input i)
  show ?case
  proof (cases "i < length input \<and> isSpace (input ! i)")
    case True
    then have "skipWhitespace input i = skipWhitespace input (i + 1)"
      by (subst skipWhitespace.simps) simp
    with 1 True show ?thesis by simp
  next
    case False
    then have "skipWhitespace input i = i"
      by (subst skipWhitespace.simps) auto
    then show ?thesis by simp
  qed
qed

lemma scanWhile_ge: "i \<le> snd (scanWhile p input i acc)"
proof (induction p input i acc rule: scanWhile.induct)
  case (1 p input i acc)
  show ?case
  proof (cases "i < length input \<and> p (input ! i)")
    case True
    then have "scanWhile p input i acc = scanWhile p input (i + 1) (acc @ [input ! i])"
      by (subst scanWhile.simps) simp
    with 1 True show ?thesis by simp
  next
    case False
    then have "scanWhile p input i acc = (acc, i)"
      by (subst scanWhile.simps) auto
    then show ?thesis by simp
  qed
qed

lemma scanWhile_gt:
  assumes "i < length input" and "p (input ! i)"
  shows "i < snd (scanWhile p input i acc)"
proof -
  have "scanWhile p input i acc = scanWhile p input (i + 1) (acc @ [input ! i])"
    using assms by (subst scanWhile.simps) simp
  moreover have "i + 1 \<le> snd (scanWhile p input (i + 1) (acc @ [input ! i]))"
    by (rule scanWhile_ge)
  ultimately show ?thesis by simp
qed

function tokenize_loop :: "string \<Rightarrow> nat \<Rightarrow> token list \<Rightarrow> error + token list" where
  "tokenize_loop input i tokens =
     (if i < length input then
        (let j = skipWhitespace input i in
         if j \<ge> length input then Inr tokens
         else
           (let ch = input ! j in
            if isDigit ch \<or> (ch = CHR ''.'' \<and> j + 1 < length input \<and> isDigit (input ! (j + 1))) then
              (let r = scanWhile isDigitOrDot input j [] in
               if length (filter (\<lambda>c. c = CHR ''.'') (fst r)) > 1 then Inl InvalidNumberFormat
               else tokenize_loop input (snd r) (tokens @ [\<lparr>tok_type = NUMBER, tok_value = fst r\<rparr>]))
            else if isLetter ch then
              (let r = scanWhile isAlnum input j [] in
               tokenize_loop input (snd r) (tokens @ [\<lparr>tok_type = IDENT, tok_value = fst r\<rparr>]))
            else if ch \<in> set ''+-*/()'' then
              tokenize_loop input (j + 1) (tokens @ [\<lparr>tok_type = OPERATOR, tok_value = [ch]\<rparr>])
            else Inl (InvalidCharacter ch (j + 1))))
      else Inr tokens)"
  by pat_completeness auto
termination
proof (relation "measure (\<lambda>(input, i, tokens). length input - i)", goal_cases)
  case 1
  show ?case by simp
next
  case (2 input i tokens j ch r)
  have "i \<le> j" using 2 skipWhitespace_ge by simp
  moreover have "j < snd r"
    using 2 scanWhile_gt [of j input isDigitOrDot "[]"] by (auto simp: isDigitOrDot_def)
  ultimately show ?case using 2 by simp
next
  case (3 input i tokens j ch r)
  have "i \<le> j" using 3 skipWhitespace_ge by simp
  moreover have "j < snd r"
    using 3 scanWhile_gt [of j input isAlnum "[]"] by (auto simp: isAlnum_def)
  ultimately show ?case using 3 by simp
next
  case (4 input i tokens j ch)
  have "i \<le> j" using 4 skipWhitespace_ge by simp
  then show ?case using 4 by simp
qed

declare tokenize_loop.simps [simp del]

definition tokenize :: "string \<Rightarrow> error + token list" where
  "tokenize input = tokenize_loop input 0 []"

section \<open>Recursive descent parser\<close>

datatype node =
    Number string
  | Variable string
  | BinaryOp string node node
  | UnaryOp string node

text \<open>
  The parser object holds the token array and the cursor \<open>pos\<close>. The array never changes,
  so each method takes the tokens and the cursor and returns its result with the new
  cursor, or the error it throws.
\<close>

definition peek :: "token list \<Rightarrow> nat \<Rightarrow> token option" where
  "peek tokens pos = (if pos < length tokens then Some (tokens ! pos) else None)"

definition consume :: "nat \<Rightarrow> nat" where
  \<comment> \<open>the cursor after \<open>this.pos++\<close>; every caller has just peeked the token it returns\<close>
  "consume pos = pos + 1"

definition eat :: "token list \<Rightarrow> nat \<Rightarrow> token_type \<Rightarrow> string \<Rightarrow> error + nat" where
  "eat tokens pos type val =
     (case peek tokens pos of
        None \<Rightarrow> Inl (Expected type val None)
      | Some tok \<Rightarrow>
          if tok_type tok \<noteq> type \<or> (val \<noteq> [] \<and> tok_value tok \<noteq> val)
          then Inl (Expected type val (Some (tok_type tok)))
          else Inr (consume pos))"

function parseExpression :: "token list \<Rightarrow> nat \<Rightarrow> error + node \<times> nat"
  and parseExpression_loop :: "token list \<Rightarrow> node \<Rightarrow> nat \<Rightarrow> error + node \<times> nat"
  and parseTerm :: "token list \<Rightarrow> nat \<Rightarrow> error + node \<times> nat"
  and parseTerm_loop :: "token list \<Rightarrow> node \<Rightarrow> nat \<Rightarrow> error + node \<times> nat"
  and parseFactor :: "token list \<Rightarrow> nat \<Rightarrow> error + node \<times> nat"
where
  "parseExpression tokens pos =
     (case parseTerm tokens pos of
        Inl e \<Rightarrow> Inl e
      | Inr (node, pos1) \<Rightarrow> parseExpression_loop tokens node pos1)"
| "parseExpression_loop tokens node pos =
     (case peek tokens pos of
        None \<Rightarrow> Inr (node, pos)
      | Some tok \<Rightarrow>
          if tok_value tok \<in> set [''+'', ''-''] then
            (case parseTerm tokens (consume pos) of
               Inl e \<Rightarrow> Inl e
             | Inr (right, pos1) \<Rightarrow>
                 parseExpression_loop tokens (BinaryOp (tok_value tok) node right) pos1)
          else Inr (node, pos))"
| "parseTerm tokens pos =
     (case parseFactor tokens pos of
        Inl e \<Rightarrow> Inl e
      | Inr (node, pos1) \<Rightarrow> parseTerm_loop tokens node pos1)"
| "parseTerm_loop tokens node pos =
     (case peek tokens pos of
        None \<Rightarrow> Inr (node, pos)
      | Some tok \<Rightarrow>
          if tok_value tok \<in> set [''*'', ''/''] then
            (case parseFactor tokens (consume pos) of
               Inl e \<Rightarrow> Inl e
             | Inr (right, pos1) \<Rightarrow>
                 parseTerm_loop tokens (BinaryOp (tok_value tok) node right) pos1)
          else Inr (node, pos))"
| "parseFactor tokens pos =
     (case peek tokens pos of
        None \<Rightarrow> Inl UnexpectedEndOfInput
      | Some tok \<Rightarrow>
          if tok_type tok = NUMBER then Inr (Number (tok_value tok), consume pos)
          else if tok_type tok = IDENT then Inr (Variable (tok_value tok), consume pos)
          else if tok_value tok = ''('' then
            (case parseExpression tokens (consume pos) of
               Inl e \<Rightarrow> Inl e
             | Inr (node, pos1) \<Rightarrow>
                 (case eat tokens pos1 OPERATOR '')'' of
                    Inl e \<Rightarrow> Inl e
                  | Inr pos2 \<Rightarrow> Inr (node, pos2)))
          else if tok_value tok = ''-'' then
            (case parseFactor tokens (consume pos) of
               Inl e \<Rightarrow> Inl e
             | Inr (expr, pos1) \<Rightarrow> Inr (UnaryOp ''-'' expr, pos1))
          else Inl (UnexpectedToken (tok_type tok) (tok_value tok)))"
  by pat_completeness auto

text \<open>
  Termination: a call either moves the cursor forward or goes down the grammar
  (expression, its loop, term, its loop, factor) at the same cursor. That a successful
  call never moves the cursor back is proved first, on the domain of the functions.
\<close>

lemma peek_Some_less: "peek tokens pos = Some tok \<Longrightarrow> pos < length tokens"
  by (simp add: peek_def split: if_splits)

lemma eat_pos: "eat tokens pos type val = Inr pos' \<Longrightarrow> pos' = pos + 1"
  by (simp add: eat_def consume_def split: option.splits if_splits)

lemma parse_pos_le:
  "parseExpression_parseExpression_loop_parseTerm_parseTerm_loop_parseFactor_dom (Inl (Inl (tokens, pos)))
     \<Longrightarrow> \<forall>b. parseExpression tokens pos = Inr b \<longrightarrow> pos \<le> snd b"
  "parseExpression_parseExpression_loop_parseTerm_parseTerm_loop_parseFactor_dom (Inl (Inr (tokens, node, pos)))
     \<Longrightarrow> \<forall>b. parseExpression_loop tokens node pos = Inr b \<longrightarrow> pos \<le> snd b"
  "parseExpression_parseExpression_loop_parseTerm_parseTerm_loop_parseFactor_dom (Inr (Inl (tokens, pos)))
     \<Longrightarrow> \<forall>b. parseTerm tokens pos = Inr b \<longrightarrow> pos \<le> snd b"
  "parseExpression_parseExpression_loop_parseTerm_parseTerm_loop_parseFactor_dom (Inr (Inr (Inl (tokens, node, pos))))
     \<Longrightarrow> \<forall>b. parseTerm_loop tokens node pos = Inr b \<longrightarrow> pos \<le> snd b"
  "parseExpression_parseExpression_loop_parseTerm_parseTerm_loop_parseFactor_dom (Inr (Inr (Inr (tokens, pos))))
     \<Longrightarrow> \<forall>b. parseFactor tokens pos = Inr b \<longrightarrow> pos \<le> snd b"
proof (induct rule: parseExpression_parseExpression_loop_parseTerm_parseTerm_loop_parseFactor.pinduct)
  case (1 tokens pos)
  then show ?case
    by (auto simp: parseExpression.psimps split: sum.splits) (metis order_trans)
next
  case (2 tokens node pos)
  then show ?case
    by (auto simp: parseExpression_loop.psimps consume_def split: sum.splits option.splits if_splits)
       (metis Suc_leD order_trans)+
next
  case (3 tokens pos)
  then show ?case
    by (auto simp: parseTerm.psimps split: sum.splits) (metis order_trans)
next
  case (4 tokens node pos)
  then show ?case
    by (auto simp: parseTerm_loop.psimps consume_def split: sum.splits option.splits if_splits)
       (metis Suc_leD order_trans)+
next
  case (5 tokens pos)
  then show ?case
    by (auto simp: parseFactor.psimps consume_def split: sum.splits option.splits if_splits dest: eat_pos)
qed

termination parseExpression
proof (relation "measure (\<lambda>x. case x of
      Inl (Inl (tokens, pos)) \<Rightarrow> 5 * (length tokens - pos) + 4
    | Inl (Inr (tokens, node, pos)) \<Rightarrow> 5 * (length tokens - pos) + 3
    | Inr (Inl (tokens, pos)) \<Rightarrow> 5 * (length tokens - pos) + 2
    | Inr (Inr (Inl (tokens, node, pos))) \<Rightarrow> 5 * (length tokens - pos) + 1
    | Inr (Inr (Inr (tokens, pos))) \<Rightarrow> 5 * (length tokens - pos))", goal_cases)
  case 1
  show ?case by simp
next
  case (2 tokens pos)
  show ?case by simp
next
  case (3 tokens pos r node pos1)
  then have "pos \<le> snd r" using parse_pos_le(3) by blast
  with 3 show ?case by auto
next
  case (4 tokens node pos tok)
  then have "pos < length tokens" by (simp add: peek_Some_less)
  then show ?case by (simp add: consume_def)
next
  case (5 tokens node pos tok r right pos1)
  then have "consume pos \<le> snd r" using parse_pos_le(3) by blast
  moreover have "pos < length tokens" using 5 by (simp add: peek_Some_less)
  ultimately show ?case using 5 by (auto simp: consume_def)
next
  case (6 tokens pos)
  show ?case by simp
next
  case (7 tokens pos r node pos1)
  then have "pos \<le> snd r" using parse_pos_le(5) by blast
  with 7 show ?case by auto
next
  case (8 tokens node pos tok)
  then have "pos < length tokens" by (simp add: peek_Some_less)
  then show ?case by (simp add: consume_def)
next
  case (9 tokens node pos tok r right pos1)
  then have "consume pos \<le> snd r" using parse_pos_le(5) by blast
  moreover have "pos < length tokens" using 9 by (simp add: peek_Some_less)
  ultimately show ?case using 9 by (auto simp: consume_def)
next
  case (10 tokens pos tok)
  then have "pos < length tokens" by (simp add: peek_Some_less)
  then show ?case by (simp add: consume_def)
next
  case (11 tokens pos tok)
  then have "pos < length tokens" by (simp add: peek_Some_less)
  then show ?case by (simp add: consume_def)
qed

declare parseExpression.simps [simp del] parseExpression_loop.simps [simp del]
  parseTerm.simps [simp del] parseTerm_loop.simps [simp del] parseFactor.simps [simp del]

section \<open>Tree printer\<close>

text \<open>
  The glyphs of the printed tree and of the semantic report lie beyond ASCII; each is
  written as the bytes of its UTF-8 encoding. None of them is a blank or an equals sign.
\<close>

definition glyph_tee :: string where
  \<comment> \<open>U+251C, box drawings light vertical and right\<close>
  "glyph_tee = [CHR 0xE2, CHR 0x94, CHR 0x9C]"

definition glyph_corner :: string where
  \<comment> \<open>U+2514, box drawings light up and right\<close>
  "glyph_corner = [CHR 0xE2, CHR 0x94, CHR 0x94]"

definition glyph_bar :: string where
  \<comment> \<open>U+2502, box drawings light vertical\<close>
  "glyph_bar = [CHR 0xE2, CHR 0x94, CHR 0x82]"

definition glyph_dash :: string where
  \<comment> \<open>U+2500, box drawings light horizontal\<close>
  "glyph_dash = [CHR 0xE2, CHR 0x94, CHR 0x80]"

definition glyph_warning :: string where
  \<comment> \<open>U+26A0, warning sign\<close>
  "glyph_warning = [CHR 0xE2, CHR 0x9A, CHR 0xA0]"

definition glyph_check :: string where
  \<comment> \<open>U+2713, check mark\<close>
  "glyph_check = [CHR 0xE2, CHR 0x9C, CHR 0x93]"

definition connector :: "bool \<Rightarrow> bool \<Rightarrow> string" where
  "connector isLeft isRoot =
     (if isRoot then []
      else if isLeft then glyph_tee @ glyph_dash @ glyph_dash @ '' ''
      else glyph_corner @ glyph_dash @ glyph_dash @ '' '')"

definition childPrefix :: "bool \<Rightarrow> bool \<Rightarrow> string" where
  "childPrefix isLeft isRoot =
     (if isRoot then [] else if isLeft then glyph_bar @ ''   '' else ''    '')"

fun printTree :: "node \<Rightarrow> string \<Rightarrow> bool \<Rightarrow> bool \<Rightarrow> string" where
  "printTree (BinaryOp operator left right) prefix isLeft isRoot =
     prefix @ connector isLeft isRoot @ ''['' @ operator @ '']\<newline>''
       @ printTree left (prefix @ childPrefix isLeft isRoot) True False
       @ printTree right (prefix @ childPrefix isLeft isRoot) False False"
| "printTree (UnaryOp operator operand) prefix isLeft isRoot =
     prefix @ connector isLeft isRoot @ ''[unary '' @ operator @ '']\<newline>''
       @ printTree operand (prefix @ childPrefix isLeft isRoot) False False"
| "printTree (Number val) prefix isLeft isRoot =
     prefix @ connector isLeft isRoot @ val @ ''\<newline>''"
| "printTree (Variable name) prefix isLeft isRoot =
     prefix @ connector isLeft isRoot @ name @ ''\<newline>''"

section \<open>Semantic analysis\<close>

text \<open>
  The four accumulators of one call of \<open>semanticAnalysis\<close>. The \<open>Set\<close> of variables keeps
  insertion order, so it is a list without duplicates.
\<close>

record analysis =
  variables :: "string list"
  constants :: "string list"
  operators :: "string list"
  nodeCount :: nat

definition set_add :: "string \<Rightarrow> string list \<Rightarrow> string list" where
  \<comment> \<open>\<open>Set.prototype.add\<close>\<close>
  "set_add x xs = (if x \<in> set xs then xs else xs @ [x])"

fun walk :: "node \<Rightarrow> analysis \<Rightarrow> analysis" where
  "walk (Variable name) s =
     s\<lparr>nodeCount := nodeCount s + 1, variables := set_add name (variables s)\<rparr>"
| "walk (Number val) s =
     s\<lparr>nodeCount := nodeCount s + 1, constants := constants s @ [val]\<rparr>"
| "walk (BinaryOp operator left right) s =
     walk right (walk left (s\<lparr>nodeCount := nodeCount s + 1, operators := operators s @ [operator]\<rparr>))"
| "walk (UnaryOp operator operand) s =
     walk operand (s\<lparr>nodeCount := nodeCount s + 1, operators := operators s @ [''unary '' @ operator]\<rparr>)"

definition fresh_analysis :: analysis where
  \<comment> \<open>the accumulators as each call creates them\<close>
  "fresh_analysis = \<lparr>variables = [], constants = [], operators = [], nodeCount = 0\<rparr>"

definition report :: "analysis \<Rightarrow> string" where
  "report s =
     glyph_dash @ glyph_dash @ '' Semantic Analysis Report '' @ glyph_dash @ glyph_dash @ ''\<newline>\<newline>''
     @ ''AST Nodes     : '' @ showNat (nodeCount s) @ ''\<newline>''
     @ ''Variables     : ''
       @ (if length (variables s) > 0 then join '', '' (variables s) else ''(none)'') @ ''\<newline>''
     @ ''Constants     : ''
       @ (if length (constants s) > 0 then join '', '' (constants s) else ''(none)'') @ ''\<newline>''
     @ ''Operators     : '' @ join '', '' (operators s) @ ''\<newline>''
     @ ''Result Type   : ''
       @ (if length (variables s) > 0 then ''symbolic (contains variables)''
          else ''numeric (can evaluate)'') @ ''\<newline>''
     @ (if length (variables s) > 0
        then ''\<newline>'' @ glyph_warning @ '' Undeclared symbols: '' @ join '', '' (variables s)
             @ ''\<newline>  (values needed at runtime)''
        else ''\<newline>'' @ glyph_check @ '' Expression is fully evaluable at compile time'')"

definition semanticAnalysis :: "node \<Rightarrow> string" where
  "semanticAnalysis ast = report (walk ast fresh_analysis)"

section \<open>Three-address code\<close>

text \<open>The array \<open>tac\<close> and the counter \<open>tempCounter\<close> of one call of \<open>generateTAC\<close>.\<close>

record gen_state =
  tac :: "string list"
  tempCounter :: nat

definition emit :: "string \<Rightarrow> gen_state \<Rightarrow> gen_state" where
  \<comment> \<open>\<open>tac.push(line)\<close> after \<open>tempCounter++\<close>\<close>
  "emit line s = \<lparr>tac = tac s @ [line], tempCounter = tempCounter s + 1\<rparr>"

fun gen :: "node \<Rightarrow> gen_state \<Rightarrow> error + string \<times> gen_state" where
  "gen (Number val) s = Inr (val, s)"
| "gen (Variable name) s = Inr (name, s)"
| "gen (UnaryOp operator operand) s =
     (if operator = ''-'' then
        (case gen operand s of
           Inl e \<Rightarrow> Inl e
         | Inr (operand_ref, s1) \<Rightarrow>
             (let temp = ''t'' @ showNat (tempCounter s1)
              in Inr (temp, emit (temp @ '' = -'' @ operand_ref) s1)))
      else Inl UnknownNodeType)"
| "gen (BinaryOp operator left right) s =
     (case gen left s of
        Inl e \<Rightarrow> Inl e
      | Inr (left_ref, s1) \<Rightarrow>
          (case gen right s1 of
             Inl e \<Rightarrow> Inl e
           | Inr (right_ref, s2) \<Rightarrow>
               (let temp = ''t'' @ showNat (tempCounter s2)
                in Inr (temp, emit (temp @ '' = '' @ left_ref @ '' '' @ operator @ '' '' @ right_ref) s2))))"

definition fresh_gen_state :: gen_state where
  "fresh_gen_state = \<lparr>tac = [], tempCounter = 0\<rparr>"

definition generateTAC :: "node \<Rightarrow> error + string list" where
  "generateTAC node =
     (case gen node fresh_gen_state of
        Inl e \<Rightarrow> Inl e
      | Inr (result, s) \<Rightarrow>
          Inr (if length (tac s) = 0 then tac s @ [''result = '' @ result]
               else tac s @ [''result = '' @ result]))"

section \<open>Pseudo-assembly\<close>

fun generateFinalCode_loop :: "string list \<Rightarrow> string list \<Rightarrow> error + string list" where
  "generateFinalCode_loop [] lines = Inr lines"
| "generateFinalCode_loop (line # rest) lines =
     (if CHR ''='' \<in> set line then
        (case split '' = '' line of
           target # expr # _ \<Rightarrow>
             generateFinalCode_loop rest (lines @ [''MOV '' @ trim target @ '', '' @ trim expr])
         | _ \<Rightarrow> Inl TrimOfUndefined)
      else generateFinalCode_loop rest lines)"

definition generateFinalCode :: "string list \<Rightarrow> error + string" where
  "generateFinalCode tacLines =
     (case generateFinalCode_loop tacLines [] of
        Inl e \<Rightarrow> Inl e
      | Inr lines \<Rightarrow> Inr (join ''\<newline>'' lines))"

section \<open>The compile endpoint\<close>

fun message :: "error \<Rightarrow> string" where
  \<comment> \<open>\<open>err.message\<close>; the text of the \<open>TypeError\<close> is the one of Node.js\<close>
  "message InvalidNumberFormat = ''Invalid number format: multiple dots''"
| "message (InvalidCharacter ch pos) =
     ''Invalid character: '' @ [CHR 0x27, ch, CHR 0x27] @ '' at position '' @ showNat pos"
| "message (Expected type val got) =
     ''Expected '' @ type_name type @ '' ''
       @ (if val \<noteq> [] then [CHR 0x27] @ val @ [CHR 0x27] else [])
       @ '' but got '' @ (case got of Some t \<Rightarrow> type_name t | None \<Rightarrow> ''EOF'')"
| "message UnexpectedEndOfInput = ''Unexpected end of input''"
| "message (UnexpectedToken type val) =
     ''Unexpected token: '' @ type_name type @ '' '' @ [CHR 0x27] @ val @ [CHR 0x27]"
| "message ExtraTokens = ''Extra tokens after expression''"
| "message UnknownNodeType = ''Unknown node type in TAC generation''"
| "message TrimOfUndefined =
     ''Cannot read properties of undefined (reading '' @ [CHR 0x27] @ ''trim'' @ [CHR 0x27] @ '')''"

text \<open>
  The value of the field \<open>expression\<close> of the request body, as JSON parsing gives it
  (\<open>JUndefined\<close> when the field is missing, \<open>JObject\<close> for an array or an object). A
  number is kept as an integer: the handler rejects every number by its type, whatever
  its value. Parsing the body itself belongs to the transport and is not modelled.
\<close>

datatype jsvalue =
    JUndefined
  | JNull
  | JBoolean bool
  | JNumber int
  | JString string
  | JObject

fun truthy :: "jsvalue \<Rightarrow> bool" where
  "truthy JUndefined = False"
| "truthy JNull = False"
| "truthy (JBoolean b) = b"
| "truthy (JNumber n) = (n \<noteq> 0)"
| "truthy (JString s) = (s \<noteq> [])"
| "truthy JObject = True"

fun typeof :: "jsvalue \<Rightarrow> string" where
  "typeof JUndefined = ''undefined''"
| "typeof JNull = ''object''"
| "typeof (JBoolean b) = ''boolean''"
| "typeof (JNumber n) = ''number''"
| "typeof (JString s) = ''string''"
| "typeof JObject = ''object''"

record phase_results =
  res_tokens :: string
  res_syntaxTree :: string
  res_semantic :: string
  res_intermediate :: string
  res_final :: string

datatype body = ResultsBody phase_results | ErrorBody string

record response =
  status :: nat
  body :: body

definition or_else :: "string \<Rightarrow> string \<Rightarrow> string" where
  \<comment> \<open>\<open>a || b\<close> on strings: the empty string is falsy\<close>
  "or_else a b = (if a = [] then b else a)"

text \<open>
  The body of the \<open>try\<close> block after the validation of the request. The two services of
  the repository differ in the tree printer and in what fills the field \<open>semantic\<close> only;
  both are parameters here.
\<close>

definition pipeline :: "(node \<Rightarrow> string) \<Rightarrow> (node \<Rightarrow> string) \<Rightarrow> string \<Rightarrow> error + phase_results" where
  "pipeline printer analyser expression =
     (case tokenize expression of
        Inl e \<Rightarrow> Inl e
      | Inr tokens \<Rightarrow>
          (case parseExpression tokens 0 of
             Inl e \<Rightarrow> Inl e
           | Inr (ast, pos) \<Rightarrow>
               if pos \<noteq> length tokens then Inl ExtraTokens
               else
                 (let syntaxTree = or_else (trim (printer ast)) ''(empty tree)'' in
                  case generateTAC ast of
                    Inl e \<Rightarrow> Inl e
                  | Inr tacLines \<Rightarrow>
                      (case generateFinalCode tacLines of
                         Inl e \<Rightarrow> Inl e
                       | Inr finalCode \<Rightarrow>
                           Inr \<lparr>res_tokens =
                                  join ''\<newline>''
                                    (map (\<lambda>t. padEnd 8 (type_name (tok_type t)) @ '' '' @ tok_value t) tokens),
                                res_syntaxTree = syntaxTree,
                                res_semantic = analyser ast,
                                res_intermediate = join ''\<newline>'' tacLines,
                                res_final = or_else finalCode ''(single value - no operations)''\<rparr>))))"

definition compile_with :: "(node \<Rightarrow> string) \<Rightarrow> (node \<Rightarrow> string) \<Rightarrow> jsvalue \<Rightarrow> response" where
  "compile_with printer analyser expression =
     (if \<not> truthy expression \<or> typeof expression \<noteq> ''string''
      then \<lparr>status = 400, body = ErrorBody ''Missing or invalid expression''\<rparr>
      else
        (case expression of
           JString text \<Rightarrow>
             (case pipeline printer analyser text of
                Inl e \<Rightarrow> \<lparr>status = 400, body = ErrorBody (message e)\<rparr>
              | Inr results \<Rightarrow> \<lparr>status = 200, body = ResultsBody results\<rparr>)
         | _ \<Rightarrow> \<lparr>status = 400, body = ErrorBody ''Missing or invalid expression''\<rparr>))"

definition compile :: "jsvalue \<Rightarrow> response" where
  \<comment> \<open>the handler of \<open>server.js\<close>\<close>
  "compile expression =
     compile_with (\<lambda>ast. printTree ast [] True True) semanticAnalysis expression"

text \<open>
  The module of \<open>server.js\<close> binds no mutable variable: the token array, the cursor of
  the parser, the accumulators of \<open>semanticAnalysis\<close> and the array and counter of
  \<open>generateTAC\<close> are all created by the call that uses them. A request hands nothing to
  the next one, and the answers to a sequence of requests are the answers of \<open>compile\<close>.
\<close>

fun serve :: "jsvalue list \<Rightarrow> response list" where
  "serve [] = []"
| "serve (expression # later) = compile expression # serve later"

section \<open>Notions used to state the properties\<close>

abbreviation num_tok :: "string \<Rightarrow> token" where
  "num_tok v \<equiv> \<lparr>tok_type = NUMBER, tok_value = v\<rparr>"

abbreviation id_tok :: "string \<Rightarrow> token" where
  "id_tok v \<equiv> \<lparr>tok_type = IDENT, tok_value = v\<rparr>"

abbreviation op_tok :: "string \<Rightarrow> token" where
  "op_tok v \<equiv> \<lparr>tok_type = OPERATOR, tok_value = v\<rparr>"

definition operand_token :: "token \<Rightarrow> bool" where
  \<comment> \<open>a token that is a factor by itself\<close>
  "operand_token t \<longleftrightarrow> tok_type t = NUMBER \<or> tok_type t = IDENT"

definition leaf :: "token \<Rightarrow> node" where
  \<comment> \<open>the node of an operand token\<close>
  "leaf t = (if tok_type t = NUMBER then Number (tok_value t) else Variable (tok_value t))"

fun chain :: "(string \<times> token) list \<Rightarrow> token list" where
  \<comment> \<open>the tokens of a sequence of (operator, operand) pairs\<close>
  "chain [] = []"
| "chain ((opr, t) # rest) = op_tok opr # t # chain rest"

definition wrap_left :: "node \<Rightarrow> (string \<times> token) list \<Rightarrow> node" where
  \<comment> \<open>each pair wraps the node built so far as the left child of a new \<open>BinaryOp\<close>\<close>
  "wrap_left = foldl (\<lambda>node (opr, t). BinaryOp opr node (leaf t))"

definition starts_with :: "string \<Rightarrow> string \<Rightarrow> bool" where
  \<comment> \<open>the text \<open>s\<close> begins with \<open>p\<close>\<close>
  "starts_with p s \<longleftrightarrow> take (length p) s = p"

fun numbered_from :: "nat \<Rightarrow> string list \<Rightarrow> bool" where
  \<comment> \<open>the lines assign to the temporaries \<open>tn\<close>, \<open>t(n+1)\<close>, ... one after the other\<close>
  "numbered_from n [] = True"
| "numbered_from n (line # lines) =
     (starts_with (''t'' @ showNat n @ '' = '') line \<and> numbered_from (n + 1) lines)"

fun count_operations :: "node \<Rightarrow> nat" where
  "count_operations (Number val) = 0"
| "count_operations (Variable name) = 0"
| "count_operations (UnaryOp operator operand) = 1 + count_operations operand"
| "count_operations (BinaryOp operator left right) =
     count_operations left + count_operations right + 1"

fun node_variables :: "node \<Rightarrow> string list" where
  \<comment> \<open>the variable names of a tree, left to right\<close>
  "node_variables (Variable name) = [name]"
| "node_variables (Number val) = []"
| "node_variables (BinaryOp operator left right) = node_variables left @ node_variables right"
| "node_variables (UnaryOp operator operand) = node_variables operand"

fun node_constants :: "node \<Rightarrow> string list" where
  "node_constants (Variable name) = []"
| "node_constants (Number val) = [val]"
| "node_constants (BinaryOp operator left right) = node_constants left @ node_constants right"
| "node_constants (UnaryOp operator operand) = node_constants operand"

fun node_operators :: "node \<Rightarrow> string list" where
  \<comment> \<open>the operators of a tree in pre-order\<close>
  "node_operators (Variable name) = []"
| "node_operators (Number val) = []"
| "node_operators (BinaryOp operator left right) =
     operator # node_operators left @ node_operators right"
| "node_operators (UnaryOp operator operand) = (''unary '' @ operator) # node_operators operand"

fun node_count :: "node \<Rightarrow> nat" where
  "node_count (Variable name) = 1"
| "node_count (Number val) = 1"
| "node_count (BinaryOp operator left right) = 1 + node_count left + node_count right"
| "node_count (UnaryOp operator operand) = 1 + node_count operand"

definition add_all :: "string list \<Rightarrow> string list \<Rightarrow> string list" where
  \<comment> \<open>the names added one by one to the set \<open>seen\<close>\<close>
  "add_all seen names = foldl (\<lambda>xs x. set_add x xs) seen names"

section \<open>Lemmas on the tokenizer\<close>

text \<open>The position of an invalid character is the 1-based index of that character.\<close>

lemma tokenize_loop_invalid:
  "tokenize_loop input i tokens = Inl (InvalidCharacter ch pos)
   \<Longrightarrow> 0 < pos \<and> pos \<le> length input \<and> input ! (pos - 1) = ch"
proof (induction input i tokens rule: tokenize_loop.induct)
  case (1 input i tokens)
  from "1.prems" show ?case
    apply (subst (asm) tokenize_loop.simps)
    apply (simp add: Let_def split: if_splits)
    using "1.IH" apply (auto simp: Let_def)
    done
qed

lemma tokenize_invalid_position:
  "tokenize input = Inl (InvalidCharacter ch pos)
   \<Longrightarrow> 0 < pos \<and> pos \<le> length input \<and> input ! (pos - 1) = ch"
  unfolding tokenize_def by (rule tokenize_loop_invalid)

section \<open>Lemmas on the parser\<close>

lemma peek_append_length [simp]: "peek (pre @ t # rest) (length pre) = Some t"
  by (simp add: peek_def)

lemma peek_append_Suc_length [simp]: "peek (pre @ a # t # rest) (Suc (length pre)) = Some t"
  by (simp add: peek_def nth_append)

lemma peek_end [simp]: "peek pre (length pre) = None"
  by (simp add: peek_def)

lemma parseFactor_operand:
  "operand_token t \<Longrightarrow> peek tokens pos = Some t \<Longrightarrow> parseFactor tokens pos = Inr (leaf t, pos + 1)"
  by (subst parseFactor.simps) (auto simp: operand_token_def leaf_def consume_def)

lemma parseFactor_minus:
  "peek tokens pos = Some tok \<Longrightarrow> tok_type tok = OPERATOR \<Longrightarrow> tok_value tok = ''-''
   \<Longrightarrow> parseFactor tokens pos
       = (case parseFactor tokens (consume pos) of
            Inl e \<Rightarrow> Inl e
          | Inr (expr, pos1) \<Rightarrow> Inr (UnaryOp ''-'' expr, pos1))"
  by (subst parseFactor.simps) simp

lemma parseTerm_loop_stop:
  "peek tokens pos = None \<or> (\<exists>tok. peek tokens pos = Some tok \<and> tok_value tok \<notin> set [''*'', ''/''])
   \<Longrightarrow> parseTerm_loop tokens node pos = Inr (node, pos)"
  by (subst parseTerm_loop.simps) auto

lemma parseTerm_loop_step:
  "peek tokens pos = Some tok \<Longrightarrow> tok_value tok \<in> set [''*'', ''/'']
   \<Longrightarrow> parseFactor tokens (consume pos) = Inr (right, pos1)
   \<Longrightarrow> parseTerm_loop tokens node pos
       = parseTerm_loop tokens (BinaryOp (tok_value tok) node right) pos1"
  by (subst parseTerm_loop.simps) simp

lemma parseExpression_loop_step:
  "peek tokens pos = Some tok \<Longrightarrow> tok_value tok \<in> set [''+'', ''-'']
   \<Longrightarrow> parseTerm tokens (consume pos) = Inr (right, pos1)
   \<Longrightarrow> parseExpression_loop tokens node pos
       = parseExpression_loop tokens (BinaryOp (tok_value tok) node right) pos1"
  by (subst parseExpression_loop.simps) simp

lemma peek_chain:
  "\<forall>(opr, t) \<in> set ps. opr \<in> set [''+'', ''-''] \<Longrightarrow>
   peek (pre @ chain ps) (length pre) = None
   \<or> (\<exists>tok. peek (pre @ chain ps) (length pre) = Some tok \<and> tok_value tok \<notin> set [''*'', ''/''])"
  by (cases ps) auto

lemma parseExpression_loop_chain:
  "\<forall>(opr, t) \<in> set ps. opr \<in> set [''+'', ''-''] \<and> operand_token t \<Longrightarrow>
   parseExpression_loop (pre @ chain ps) node (length pre)
     = Inr (wrap_left node ps, length pre + 2 * length ps)"
proof (induction ps arbitrary: pre node)
  case Nil
  show ?case by (subst parseExpression_loop.simps) (simp add: wrap_left_def)
next
  case (Cons p ps)
  obtain opr t where p: "p = (opr, t)" by (cases p)
  let ?tokens = "pre @ chain (p # ps)"
  let ?pre = "pre @ [op_tok opr, t]"
  have tokens: "?tokens = ?pre @ chain ps" by (simp add: p)
  have opr: "opr \<in> set [''+'', ''-'']" and t: "operand_token t"
    and rest: "\<forall>(opr, t) \<in> set ps. opr \<in> set [''+'', ''-''] \<and> operand_token t"
    using Cons.prems by (auto simp: p)
  have "parseFactor ?tokens (Suc (length pre)) = Inr (leaf t, Suc (length pre) + 1)"
    by (rule parseFactor_operand [OF t]) (simp add: p)
  moreover have "parseTerm_loop ?tokens (leaf t) (length ?pre) = Inr (leaf t, length ?pre)"
    unfolding tokens using rest by (intro parseTerm_loop_stop peek_chain) auto
  ultimately have right: "parseTerm ?tokens (consume (length pre)) = Inr (leaf t, length ?pre)"
    by (subst parseTerm.simps) (simp add: consume_def)
  have "parseExpression_loop ?tokens node (length pre)
      = parseExpression_loop ?tokens (BinaryOp opr node (leaf t)) (length ?pre)"
    using parseExpression_loop_step [of ?tokens "length pre" "op_tok opr" "leaf t" "length ?pre" node]
      opr right by (simp add: p)
  also have "\<dots> = Inr (wrap_left (BinaryOp opr node (leaf t)) ps, length ?pre + 2 * length ps)"
    unfolding tokens by (rule Cons.IH [OF rest])
  finally show ?case by (simp add: wrap_left_def p)
qed

lemma parseExpression_chain:
  assumes "operand_token first"
    and "\<forall>(opr, t) \<in> set rest. opr \<in> set [''+'', ''-''] \<and> operand_token t"
  shows "parseExpression (first # chain rest) 0 = Inr (wrap_left (leaf first) rest, 1 + 2 * length rest)"
proof -
  let ?tokens = "first # chain rest"
  have tokens: "?tokens = [first] @ chain rest" by simp
  have "parseFactor ?tokens 0 = Inr (leaf first, 1)"
    using parseFactor_operand [OF assms(1), of ?tokens 0] by (simp add: peek_def)
  moreover have "parseTerm_loop ?tokens (leaf first) (length [first]) = Inr (leaf first, length [first])"
    unfolding tokens using assms(2) by (intro parseTerm_loop_stop peek_chain) auto
  ultimately have "parseTerm ?tokens 0 = Inr (leaf first, 1)"
    by (subst parseTerm.simps) simp
  moreover have "parseExpression_loop ?tokens (leaf first) (length [first])
      = Inr (wrap_left (leaf first) rest, length [first] + 2 * length rest)"
    unfolding tokens by (rule parseExpression_loop_chain [OF assms(2)])
  ultimately show ?thesis
    by (subst parseExpression.simps) simp
qed

lemma parseFactor_stack:
  "operand_token t \<Longrightarrow> k \<le> n \<Longrightarrow>
   parseFactor (replicate n (op_tok ''-'') @ t # rest) (n - k)
     = Inr ((UnaryOp ''-'' ^^ k) (leaf t), n + 1)"
proof (induction k)
  case 0
  have "peek (replicate n (op_tok ''-'') @ t # rest) n = Some t"
    using peek_append_length [of "replicate n (op_tok ''-'')" t rest] by simp
  with 0 show ?case using parseFactor_operand by simp
next
  case (Suc k)
  let ?tokens = "replicate n (op_tok ''-'') @ t # rest"
  have "n - Suc k < n" using Suc.prems by simp
  then have "peek ?tokens (n - Suc k) = Some (op_tok ''-'')"
    by (simp add: peek_def nth_append)
  then have "parseFactor ?tokens (n - Suc k)
       = (case parseFactor ?tokens (consume (n - Suc k)) of
            Inl e \<Rightarrow> Inl e
          | Inr (expr, pos1) \<Rightarrow> Inr (UnaryOp ''-'' expr, pos1))"
    by (rule parseFactor_minus) simp_all
  moreover have "consume (n - Suc k) = n - k"
    using Suc.prems by (simp add: consume_def)
  moreover have "parseFactor ?tokens (n - k) = Inr ((UnaryOp ''-'' ^^ k) (leaf t), n + 1)"
    using Suc by simp
  ultimately show ?case by simp
qed

lemma unary_binds_tighter:
  assumes "operand_token a" "operand_token b" "opr \<in> set [''+'', ''-'', ''*'', ''/'']"
  shows "parseExpression [op_tok ''-'', a, op_tok opr, b] 0
     = Inr (BinaryOp opr (UnaryOp ''-'' (leaf a)) (leaf b), 4)"
proof -
  let ?tokens = "[op_tok ''-'', a, op_tok opr, b]"
  have f0: "parseFactor ?tokens 0 = Inr (UnaryOp ''-'' (leaf a), 2)"
    using parseFactor_stack [OF assms(1), of 1 1 "[op_tok opr, b]"] by simp
  have f3: "parseFactor ?tokens 3 = Inr (leaf b, 4)"
    using parseFactor_operand [OF assms(2), of ?tokens 3] by (simp add: peek_def)
  have end4: "parseTerm_loop ?tokens node 4 = Inr (node, 4)"
    "parseExpression_loop ?tokens node 4 = Inr (node, 4)" for node
    by (subst parseTerm_loop.simps, simp add: peek_def)
       (subst parseExpression_loop.simps, simp add: peek_def)
  have p2: "peek ?tokens 2 = Some (op_tok opr)" by (simp add: peek_def)
  from assms(3) consider "opr \<in> set [''+'', ''-'']" | "opr \<in> set [''*'', ''/'']" by auto
  then show ?thesis
  proof cases
    case 1
    then have "opr \<notin> set [''*'', ''/'']" by auto
    then have "parseTerm ?tokens 0 = Inr (UnaryOp ''-'' (leaf a), 2)"
      using f0 p2 by (subst parseTerm.simps, simp) (subst parseTerm_loop.simps, simp)
    moreover have "parseTerm ?tokens 3 = Inr (leaf b, 4)"
      using f3 end4 by (subst parseTerm.simps) simp
    ultimately show ?thesis
      using 1 p2 end4
      by (subst parseExpression.simps, simp) (subst parseExpression_loop.simps, simp add: consume_def)
  next
    case 2
    then have "parseTerm ?tokens 0 = Inr (BinaryOp opr (UnaryOp ''-'' (leaf a)) (leaf b), 4)"
      using f0 f3 p2 end4
      by (subst parseTerm.simps, simp) (subst parseTerm_loop.simps, simp add: consume_def)
    then show ?thesis
      using end4 by (subst parseExpression.simps) simp
  qed
qed

section \<open>Lemmas on the analysis and on code generation\<close>

lemma add_all_append: "add_all seen (xs @ ys) = add_all (add_all seen xs) ys"
  by (simp add: add_all_def)

text \<open>What \<open>walk\<close> adds to the accumulators depends on the tree alone.\<close>

lemma walk_from:
  "walk ast s = \<lparr>variables = add_all (variables s) (node_variables ast),
                 constants = constants s @ node_constants ast,
                 operators = operators s @ node_operators ast,
                 nodeCount = nodeCount s + node_count ast\<rparr>"
  by (induction ast arbitrary: s) (simp_all add: add_all_append, simp_all add: add_all_def)

lemma starts_with_append: "starts_with p (p @ rest)"
  by (simp add: starts_with_def)

lemma numbered_from_append:
  "numbered_from n (xs @ ys) = (numbered_from n xs \<and> numbered_from (n + length xs) ys)"
  by (induction xs arbitrary: n) auto

text \<open>
  A run of \<open>gen\<close> appends one line per operation of the tree, numbered from the counter
  it starts with, and advances the counter by as many.
\<close>

lemma gen_numbered:
  "gen node s = Inr (ref, s') \<Longrightarrow>
     \<exists>new. tac s' = tac s @ new \<and> length new = count_operations node
        \<and> tempCounter s' = tempCounter s + length new
        \<and> numbered_from (tempCounter s) new"
proof (induction node arbitrary: s ref s')
  case (Number x)
  then show ?case by auto
next
  case (Variable x)
  then show ?case by auto
next
  case (BinaryOp operator left right)
  from BinaryOp.prems obtain left_ref s1 right_ref s2 where
    l: "gen left s = Inr (left_ref, s1)" and r: "gen right s1 = Inr (right_ref, s2)"
    and res: "s' = emit (''t'' @ showNat (tempCounter s2) @ '' = '' @ left_ref @ '' '' @ operator @ '' '' @ right_ref) s2"
    by (auto simp: Let_def split: sum.splits)
  from BinaryOp.IH(1)[OF l] obtain new1 where
    n1: "tac s1 = tac s @ new1" "length new1 = count_operations left"
      "tempCounter s1 = tempCounter s + length new1" "numbered_from (tempCounter s) new1"
    by blast
  from BinaryOp.IH(2)[OF r] obtain new2 where
    n2: "tac s2 = tac s1 @ new2" "length new2 = count_operations right"
      "tempCounter s2 = tempCounter s1 + length new2" "numbered_from (tempCounter s1) new2"
    by blast
  let ?line = "''t'' @ showNat (tempCounter s2) @ '' = '' @ left_ref @ '' '' @ operator @ '' '' @ right_ref"
  have line: "starts_with (''t'' @ showNat (tempCounter s2) @ '' = '') ?line"
    using starts_with_append [of "''t'' @ showNat (tempCounter s2) @ '' = ''"
        "left_ref @ '' '' @ operator @ '' '' @ right_ref"]
    by simp
  have "tac s' = tac s @ (new1 @ new2 @ [?line])"
    using res n1 n2 by (simp add: emit_def)
  moreover have "numbered_from (tempCounter s) (new1 @ new2 @ [?line])"
    using n1 n2 line by (simp add: numbered_from_append add.assoc)
  moreover have "tempCounter s' = tempCounter s + length (new1 @ new2 @ [?line])"
    using res n1 n2 by (simp add: emit_def)
  moreover have "length (new1 @ new2 @ [?line]) = count_operations (BinaryOp operator left right)"
    using n1 n2 by simp
  ultimately show ?case by (intro exI[of _ "new1 @ new2 @ [?line]"]) simp
next
  case (UnaryOp operator operand)
  from UnaryOp.prems obtain operand_ref s1 where
    l: "gen operand s = Inr (operand_ref, s1)"
    and res: "s' = emit (''t'' @ showNat (tempCounter s1) @ '' = -'' @ operand_ref) s1"
    by (auto simp: Let_def split: sum.splits if_splits)
  from UnaryOp.IH[OF l] obtain new1 where
    n1: "tac s1 = tac s @ new1" "length new1 = count_operations operand"
      "tempCounter s1 = tempCounter s + length new1" "numbered_from (tempCounter s) new1"
    by blast
  let ?line = "''t'' @ showNat (tempCounter s1) @ '' = -'' @ operand_ref"
  have line: "starts_with (''t'' @ showNat (tempCounter s1) @ '' = '') ?line"
    using starts_with_append [of "''t'' @ showNat (tempCounter s1) @ '' = ''" "''-'' @ operand_ref"]
    by simp
  have "tac s' = tac s @ (new1 @ [?line])"
    using res n1 by (simp add: emit_def)
  moreover have "numbered_from (tempCounter s) (new1 @ [?line])"
    using n1 line by (simp add: numbered_from_append)
  moreover have "tempCounter s' = tempCounter s + length (new1 @ [?line])"
    using res n1 by (simp add: emit_def)
  moreover have "length (new1 @ [?line]) = count_operations (UnaryOp operator operand)"
    using n1 by simp
  ultimately show ?case by (intro exI[of _ "new1 @ [?line]"]) simp
qed

lemma generateTAC_numbered:
  assumes "generateTAC ast = Inr lines"
  shows "length lines = count_operations ast + 1 \<and> numbered_from 0 (butlast lines)
         \<and> starts_with ''result = '' (last lines)"
proof -
  from assms obtain ref s where g: "gen ast fresh_gen_state = Inr (ref, s)"
    and lines: "lines = tac s @ [''result = '' @ ref]"
    by (auto simp: generateTAC_def split: sum.splits)
  from gen_numbered [OF g] have "length (tac s) = count_operations ast"
    and "numbered_from 0 (tac s)"
    by (auto simp: fresh_gen_state_def)
  then show ?thesis using lines by (simp add: starts_with_def)
qed

text \<open>
  The final code of a successful run begins with \<open>MOV\<close>: the three-address code always
  ends with the \<open>result\<close> line, which holds an equals sign. So the field \<open>final\<close> of a
  response is never the text the handler keeps for an empty final code.
\<close>

lemma starts_with_extend: "starts_with p x \<Longrightarrow> starts_with p (x @ rest)"
proof -
  assume a: "starts_with p x"
  then have "length (take (length p) x) = length p"
    by (simp add: starts_with_def)
  then have "length p \<le> length x"
    by simp
  with a show ?thesis by (simp add: starts_with_def)
qed

lemma join_starts_with:
  "lines \<noteq> [] \<Longrightarrow> starts_with p (hd lines) \<Longrightarrow> starts_with p (join sep lines)"
  by (cases "(sep, lines)" rule: join.cases) (auto intro: starts_with_extend)

lemma generateFinalCode_loop_MOV:
  "generateFinalCode_loop tacLines acc = Inr out \<Longrightarrow>
     \<exists>new. out = acc @ new \<and> (\<forall>l \<in> set new. starts_with ''MOV '' l)
        \<and> ((\<exists>line \<in> set tacLines. CHR ''='' \<in> set line) \<longrightarrow> new \<noteq> [])"
proof (induction tacLines arbitrary: acc)
  case Nil
  then show ?case by simp
next
  case (Cons line rest)
  show ?case
  proof (cases "CHR ''='' \<in> set line")
    case False
    with Cons.prems have "generateFinalCode_loop rest acc = Inr out" by simp
    from Cons.IH [OF this] False show ?thesis by auto
  next
    case True
    with Cons.prems obtain target expr more where
      "split '' = '' line = target # expr # more"
      and run: "generateFinalCode_loop rest (acc @ [''MOV '' @ trim target @ '', '' @ trim expr]) = Inr out"
      by (auto split: list.splits)
    from Cons.IH [OF run] obtain new where
      new: "out = (acc @ [''MOV '' @ trim target @ '', '' @ trim expr]) @ new"
        "\<forall>l \<in> set new. starts_with ''MOV '' l"
      by blast
    have "starts_with ''MOV '' (''MOV '' @ trim target @ '', '' @ trim expr)"
      by (rule starts_with_append)
    with new show ?thesis
      by (intro exI [of _ "(''MOV '' @ trim target @ '', '' @ trim expr) # new"]) simp
  qed
qed

lemma generateFinalCode_MOV:
  assumes "generateFinalCode tacLines = Inr code" and "\<exists>line \<in> set tacLines. CHR ''='' \<in> set line"
  shows "starts_with ''MOV '' code"
proof -
  from assms(1) obtain out where run: "generateFinalCode_loop tacLines [] = Inr out"
    and code: "code = join ''\<newline>'' out"
    by (auto simp: generateFinalCode_def split: sum.splits)
  from generateFinalCode_loop_MOV [OF run] assms(2)
  have "out \<noteq> []" and "\<forall>l \<in> set out. starts_with ''MOV '' l" by auto
  then have "starts_with ''MOV '' (hd out)" by simp
  with \<open>out \<noteq> []\<close> show ?thesis unfolding code by (rule join_starts_with)
qed

lemma generateTAC_result_line:
  "generateTAC ast = Inr lines \<Longrightarrow> \<exists>line \<in> set lines. CHR ''='' \<in> set line"
  by (auto simp: generateTAC_def split: sum.splits)

lemma final_starts_with_MOV:
  assumes "pipeline printer analyser expression = Inr results"
  shows "starts_with ''MOV '' (res_final results)"
proof -
  from assms obtain ast tacLines finalCode where tac: "generateTAC ast = Inr tacLines"
    and code: "generateFinalCode tacLines = Inr finalCode"
    and final: "res_final results = or_else finalCode ''(single value - no operations)''"
    by (auto simp: pipeline_def Let_def split: sum.splits prod.splits if_splits)
  from generateFinalCode_MOV [OF code generateTAC_result_line [OF tac]]
  have mov: "starts_with ''MOV '' finalCode" .
  then have "finalCode \<noteq> []" by (auto simp: starts_with_def)
  with mov final show ?thesis by (simp add: or_else_def)
qed

lemma placeholder_unreachable:
  "pipeline printer analyser expression = Inr results
   \<Longrightarrow> res_final results \<noteq> ''(single value - no operations)''"
  using final_starts_with_MOV [of printer analyser expression results]
  by (auto simp: starts_with_def)

lemma serve_append: "serve (before @ [expression]) = serve before @ [compile expression]"
  by (induction before) simp_all

section \<open>Properties\<close>

text \<open>
  C1. For the expression \<open>2+3*4\<close> the three-address code is exactly \<open>t0 = 3 * 4\<close>,
  \<open>t1 = 2 + t0\<close>, \<open>result = t1\<close>, in that order, and the final code made from these
  lines is \<open>MOV t0, 3 * 4\<close>, \<open>MOV t1, 2 + t0\<close>, \<open>MOV result, t1\<close>. The first conjunct runs
  the lexer, the parser and \<open>generateTAC\<close>; the second and third run \<open>generateFinalCode\<close>
  on the three lines; the last is the whole pipeline, for any tree printer and analyser.
\<close>

theorem C1_tac_and_final_code:
  "(case tokenize ''2+3*4'' of
      Inl e \<Rightarrow> Inl e
    | Inr tokens \<Rightarrow>
        (case parseExpression tokens 0 of
           Inl e \<Rightarrow> Inl e
         | Inr (ast, pos) \<Rightarrow> generateTAC ast))
     = Inr [''t0 = 3 * 4'', ''t1 = 2 + t0'', ''result = t1'']
   \<and> generateFinalCode_loop [''t0 = 3 * 4'', ''t1 = 2 + t0'', ''result = t1''] []
     = Inr [''MOV t0, 3 * 4'', ''MOV t1, 2 + t0'', ''MOV result, t1'']
   \<and> generateFinalCode [''t0 = 3 * 4'', ''t1 = 2 + t0'', ''result = t1'']
     = Inr ''MOV t0, 3 * 4\<newline>MOV t1, 2 + t0\<newline>MOV result, t1''
   \<and> pipeline printer analyser ''2+3*4''
     = Inr \<lparr>res_tokens = ''NUMBER   2\<newline>OPERATOR +\<newline>NUMBER   3\<newline>OPERATOR *\<newline>NUMBER   4'',
            res_syntaxTree =
              or_else (trim (printer (BinaryOp ''+'' (Number ''2'')
                                        (BinaryOp ''*'' (Number ''3'') (Number ''4'')))))
                ''(empty tree)'',
            res_semantic =
              analyser (BinaryOp ''+'' (Number ''2'') (BinaryOp ''*'' (Number ''3'') (Number ''4''))),
            res_intermediate = ''t0 = 3 * 4\<newline>t1 = 2 + t0\<newline>result = t1'',
            res_final = ''MOV t0, 3 * 4\<newline>MOV t1, 2 + t0\<newline>MOV result, t1''\<rparr>"
  by (intro conjI; code_simp)

text \<open>
  C2. For the bare literal \<open>5\<close> the three-address code is the single line \<open>result = 5\<close>.
  That line holds an equals sign, so \<open>generateFinalCode\<close> turns it into \<open>MOV result, 5\<close>;
  the final code is not empty and the field \<open>final\<close> of the response is that line, not
  the text \<open>(single value - no operations)\<close>. By \<open>placeholder_unreachable\<close> no
  expression gets that text.
\<close>

theorem C2_bare_literal_final_code:
  "generateTAC (Number ''5'') = Inr [''result = 5'']
   \<and> generateFinalCode [''result = 5''] = Inr ''MOV result, 5''
   \<and> pipeline printer analyser ''5''
     = Inr \<lparr>res_tokens = ''NUMBER   5'',
            res_syntaxTree = or_else (trim (printer (Number ''5''))) ''(empty tree)'',
            res_semantic = analyser (Number ''5''),
            res_intermediate = ''result = 5'',
            res_final = ''MOV result, 5''\<rparr>
   \<and> ''MOV result, 5'' \<noteq> ''(single value - no operations)''"
  by (intro conjI; code_simp)

text \<open>
  C3, as stated: \<open>tokenize\<close> on \<open>2 $ 3\<close> reports the character \<open>$\<close> at position 5. It does
  not: neither the error nor its message names position 5.
\<close>

theorem C3_position_5_counterexample:
  "tokenize ''2 $ 3'' \<noteq> Inl (InvalidCharacter (CHR ''$'') 5)
   \<and> map_sum message id (tokenize ''2 $ 3'') \<noteq> Inl ''Invalid character: '$' at position 5''"
  by (intro conjI; code_simp)

text \<open>
  C3, amended: \<open>tokenize\<close> on \<open>2 $ 3\<close> fails with the lexical error that reports the
  character \<open>$\<close> and its 1-based position, which is 3 (the dollar sign is the third
  character of the input).
\<close>

theorem C3_invalid_character_position:
  "tokenize ''2 $ 3'' = Inl (InvalidCharacter (CHR ''$'') 3)
   \<and> map_sum message id (tokenize ''2 $ 3'') = Inl ''Invalid character: '$' at position 3''
   \<and> ''2 $ 3'' ! (3 - 1) = CHR ''$''"
  by (intro conjI; code_simp)

text \<open>
  C4. Precedence: the tokens of \<open>2+3*4\<close> parse to a sum whose left child is the number 2
  and whose right child is the product of 3 and 4, and the parser consumes all five
  tokens. The product binds tighter on the left of a sum as well (\<open>2*3+4\<close>).
\<close>

theorem C4_precedence:
  "tokenize ''2+3*4'' = Inr [num_tok ''2'', op_tok ''+'', num_tok ''3'', op_tok ''*'', num_tok ''4'']
   \<and> parseExpression [num_tok ''2'', op_tok ''+'', num_tok ''3'', op_tok ''*'', num_tok ''4''] 0
     = Inr (BinaryOp ''+'' (Number ''2'') (BinaryOp ''*'' (Number ''3'') (Number ''4'')), 5)
   \<and> tokenize ''2*3+4'' = Inr [num_tok ''2'', op_tok ''*'', num_tok ''3'', op_tok ''+'', num_tok ''4'']
   \<and> parseExpression [num_tok ''2'', op_tok ''*'', num_tok ''3'', op_tok ''+'', num_tok ''4''] 0
     = Inr (BinaryOp ''+'' (BinaryOp ''*'' (Number ''2'') (Number ''3'')) (Number ''4''), 5)"
  by (intro conjI; code_simp)

text \<open>
  C5. Binary operators parse left-associatively. The tokens of \<open>8-3-2\<close> parse to the
  difference whose left child is the difference of 8 and 3 and whose right child is 2
  (and likewise \<open>8/4/2\<close>). Each further pair of an operator and a term makes the loop of
  \<open>parseExpression\<close> go on with the node built so far as the left child of a new
  \<open>BinaryOp\<close> (the loop of \<open>parseTerm\<close> does the same with factors). Hence a first operand
  followed by any number of pairs of \<open>+\<close> or \<open>-\<close> and an operand parses to the left-nested
  tree of all of them and consumes every token.
\<close>

theorem C5_left_associative:
  "tokenize ''8-3-2'' = Inr [num_tok ''8'', op_tok ''-'', num_tok ''3'', op_tok ''-'', num_tok ''2'']
   \<and> parseExpression [num_tok ''8'', op_tok ''-'', num_tok ''3'', op_tok ''-'', num_tok ''2''] 0
     = Inr (BinaryOp ''-'' (BinaryOp ''-'' (Number ''8'') (Number ''3'')) (Number ''2''), 5)
   \<and> parseExpression [num_tok ''8'', op_tok ''/'', num_tok ''4'', op_tok ''/'', num_tok ''2''] 0
     = Inr (BinaryOp ''/'' (BinaryOp ''/'' (Number ''8'') (Number ''4'')) (Number ''2''), 5)
   \<and> (\<forall>tokens node pos tok right pos1.
         peek tokens pos = Some tok \<longrightarrow> tok_value tok \<in> set [''+'', ''-'']
         \<longrightarrow> parseTerm tokens (consume pos) = Inr (right, pos1)
         \<longrightarrow> parseExpression_loop tokens node pos
             = parseExpression_loop tokens (BinaryOp (tok_value tok) node right) pos1)
   \<and> (\<forall>tokens node pos tok right pos1.
         peek tokens pos = Some tok \<longrightarrow> tok_value tok \<in> set [''*'', ''/'']
         \<longrightarrow> parseFactor tokens (consume pos) = Inr (right, pos1)
         \<longrightarrow> parseTerm_loop tokens node pos
             = parseTerm_loop tokens (BinaryOp (tok_value tok) node right) pos1)
   \<and> (\<forall>first rest.
         operand_token first
         \<longrightarrow> (\<forall>(opr, t) \<in> set rest. opr \<in> set [''+'', ''-''] \<and> operand_token t)
         \<longrightarrow> parseExpression (first # chain rest) 0
             = Inr (wrap_left (leaf first) rest, 1 + 2 * length rest))"
proof (intro conjI allI impI)
  show "tokenize ''8-3-2'' = Inr [num_tok ''8'', op_tok ''-'', num_tok ''3'', op_tok ''-'', num_tok ''2'']"
    by code_simp
  show "parseExpression [num_tok ''8'', op_tok ''-'', num_tok ''3'', op_tok ''-'', num_tok ''2''] 0
     = Inr (BinaryOp ''-'' (BinaryOp ''-'' (Number ''8'') (Number ''3'')) (Number ''2''), 5)"
    by code_simp
  show "parseExpression [num_tok ''8'', op_tok ''/'', num_tok ''4'', op_tok ''/'', num_tok ''2''] 0
     = Inr (BinaryOp ''/'' (BinaryOp ''/'' (Number ''8'') (Number ''4'')) (Number ''2''), 5)"
    by code_simp
next
  fix tokens node pos tok right pos1
  assume "peek tokens pos = Some tok" "tok_value tok \<in> set [''+'', ''-'']"
    "parseTerm tokens (consume pos) = Inr (right, pos1)"
  then show "parseExpression_loop tokens node pos
      = parseExpression_loop tokens (BinaryOp (tok_value tok) node right) pos1"
    by (rule parseExpression_loop_step)
next
  fix tokens node pos tok right pos1
  assume "peek tokens pos = Some tok" "tok_value tok \<in> set [''*'', ''/'']"
    "parseFactor tokens (consume pos) = Inr (right, pos1)"
  then show "parseTerm_loop tokens node pos
      = parseTerm_loop tokens (BinaryOp (tok_value tok) node right) pos1"
    by (rule parseTerm_loop_step)
next
  fix first rest
  assume "operand_token first"
    "\<forall>(opr, t) \<in> set rest. opr \<in> set [''+'', ''-''] \<and> operand_token t"
  then show "parseExpression (first # chain rest) 0
      = Inr (wrap_left (leaf first) rest, 1 + 2 * length rest)"
    by (rule parseExpression_chain)
qed

theorem C5_left_associative_witness:
  "operand_token (num_tok ''8'')
   \<and> operand_token (num_tok ''3'') \<and> operand_token (num_tok ''2'')
   \<and> ''-'' \<in> set [''+'', ''-'']
   \<and> chain [(''-'', num_tok ''3''), (''-'', num_tok ''2'')]
     = [op_tok ''-'', num_tok ''3'', op_tok ''-'', num_tok ''2'']
   \<and> parseExpression (num_tok ''8'' # chain [(''-'', num_tok ''3''), (''-'', num_tok ''2'')]) 0
     = Inr (BinaryOp ''-'' (BinaryOp ''-'' (Number ''8'') (Number ''3'')) (Number ''2''), 5)"
proof -
  let ?rest = "[(''-'', num_tok ''3''), (''-'', num_tok ''2'')]"
  have operands: "operand_token (num_tok ''8'')"
    "\<forall>(opr, t) \<in> set ?rest. opr \<in> set [''+'', ''-''] \<and> operand_token t"
    by (simp_all add: operand_token_def)
  have "\<forall>first rest.
         operand_token first
         \<longrightarrow> (\<forall>(opr, t) \<in> set rest. opr \<in> set [''+'', ''-''] \<and> operand_token t)
         \<longrightarrow> parseExpression (first # chain rest) 0
             = Inr (wrap_left (leaf first) rest, 1 + 2 * length rest)"
    using C5_left_associative by (elim conjE)
  then have "parseExpression (num_tok ''8'' # chain ?rest) 0
      = Inr (wrap_left (leaf (num_tok ''8'')) ?rest, 1 + 2 * length ?rest)"
    using operands by blast
  then show ?thesis
    by (simp add: operand_token_def wrap_left_def leaf_def)
qed

text \<open>
  C6. Unary minus stacks and binds tighter than every binary operator. The tokens of
  \<open>--x\<close> parse to the negation of the negation of the variable \<open>x\<close>. On a minus sign
  \<open>parseFactor\<close> calls itself at the next token and wraps what it gets in a \<open>UnaryOp\<close>;
  so any number of minus signs before an operand parse to as many nested negations of
  it. A minus sign, an operand, one of the four binary operators and an operand parse
  to the binary operation whose left child is the negation of the first operand.
\<close>

theorem C6_unary_minus:
  "tokenize ''--x'' = Inr [op_tok ''-'', op_tok ''-'', id_tok ''x'']
   \<and> parseExpression [op_tok ''-'', op_tok ''-'', id_tok ''x''] 0
     = Inr (UnaryOp ''-'' (UnaryOp ''-'' (Variable ''x'')), 3)
   \<and> (\<forall>tokens pos tok.
         peek tokens pos = Some tok \<longrightarrow> tok_type tok = OPERATOR \<longrightarrow> tok_value tok = ''-''
         \<longrightarrow> parseFactor tokens pos
             = (case parseFactor tokens (consume pos) of
                  Inl e \<Rightarrow> Inl e
                | Inr (expr, pos1) \<Rightarrow> Inr (UnaryOp ''-'' expr, pos1)))
   \<and> (\<forall>n t rest.
         operand_token t
         \<longrightarrow> parseFactor (replicate n (op_tok ''-'') @ t # rest) 0
             = Inr ((UnaryOp ''-'' ^^ n) (leaf t), n + 1))
   \<and> (\<forall>a b opr.
         operand_token a \<longrightarrow> operand_token b \<longrightarrow> opr \<in> set [''+'', ''-'', ''*'', ''/'']
         \<longrightarrow> parseExpression [op_tok ''-'', a, op_tok opr, b] 0
             = Inr (BinaryOp opr (UnaryOp ''-'' (leaf a)) (leaf b), 4))"
proof (intro conjI allI impI)
  show "tokenize ''--x'' = Inr [op_tok ''-'', op_tok ''-'', id_tok ''x'']"
    by code_simp
  show "parseExpression [op_tok ''-'', op_tok ''-'', id_tok ''x''] 0
     = Inr (UnaryOp ''-'' (UnaryOp ''-'' (Variable ''x'')), 3)"
    by code_simp
next
  fix tokens pos tok
  assume "peek tokens pos = Some tok" "tok_type tok = OPERATOR" "tok_value tok = ''-''"
  then show "parseFactor tokens pos
      = (case parseFactor tokens (consume pos) of
           Inl e \<Rightarrow> Inl e
         | Inr (expr, pos1) \<Rightarrow> Inr (UnaryOp ''-'' expr, pos1))"
    by (rule parseFactor_minus)
next
  fix n t rest
  assume "operand_token t"
  then show "parseFactor (replicate n (op_tok ''-'') @ t # rest) 0
      = Inr ((UnaryOp ''-'' ^^ n) (leaf t), n + 1)"
    using parseFactor_stack [of t n n rest] by simp
next
  fix a b opr
  assume "operand_token a" "operand_token b" "opr \<in> set [''+'', ''-'', ''*'', ''/'']"
  then show "parseExpression [op_tok ''-'', a, op_tok opr, b] 0
      = Inr (BinaryOp opr (UnaryOp ''-'' (leaf a)) (leaf b), 4)"
    by (rule unary_binds_tighter)
qed

theorem C6_unary_minus_witness:
  "operand_token (id_tok ''x'')
   \<and> replicate 2 (op_tok ''-'') @ [id_tok ''x''] = [op_tok ''-'', op_tok ''-'', id_tok ''x'']
   \<and> parseFactor (replicate 2 (op_tok ''-'') @ [id_tok ''x'']) 0
     = Inr (UnaryOp ''-'' (UnaryOp ''-'' (Variable ''x'')), 3)
   \<and> operand_token (id_tok ''a'') \<and> operand_token (num_tok ''2'')
   \<and> ''*'' \<in> set [''+'', ''-'', ''*'', ''/'']
   \<and> parseExpression [op_tok ''-'', id_tok ''a'', op_tok ''*'', num_tok ''2''] 0
     = Inr (BinaryOp ''*'' (UnaryOp ''-'' (Variable ''a'')) (Number ''2''), 4)"
proof -
  have x: "operand_token (id_tok ''x'')" and a: "operand_token (id_tok ''a'')"
    and two: "operand_token (num_tok ''2'')"
    by (simp_all add: operand_token_def)
  have times: "''*'' \<in> set [''+'', ''-'', ''*'', ''/'']"
    by simp
  have leaves: "leaf (id_tok ''x'') = Variable ''x''" "leaf (id_tok ''a'') = Variable ''a''"
    "leaf (num_tok ''2'') = Number ''2''"
    by (simp_all add: leaf_def)
  have twice: "(UnaryOp ''-'' ^^ 2) (Variable ''x'') = UnaryOp ''-'' (UnaryOp ''-'' (Variable ''x''))"
    by (simp add: numeral_2_eq_2)
  have tokens: "replicate 2 (op_tok ''-'') @ [id_tok ''x''] = [op_tok ''-'', op_tok ''-'', id_tok ''x'']"
    by (simp add: numeral_2_eq_2)
  note general = C6_unary_minus
  from general have stack: "\<forall>n t rest.
         operand_token t
         \<longrightarrow> parseFactor (replicate n (op_tok ''-'') @ t # rest) 0
             = Inr ((UnaryOp ''-'' ^^ n) (leaf t), n + 1)"
    by (elim conjE)
  from general have tighter: "\<forall>a b opr.
         operand_token a \<longrightarrow> operand_token b \<longrightarrow> opr \<in> set [''+'', ''-'', ''*'', ''/'']
         \<longrightarrow> parseExpression [op_tok ''-'', a, op_tok opr, b] 0
             = Inr (BinaryOp opr (UnaryOp ''-'' (leaf a)) (leaf b), 4)"
    by (elim conjE)
  have "parseFactor (replicate 2 (op_tok ''-'') @ id_tok ''x'' # []) 0
      = Inr ((UnaryOp ''-'' ^^ 2) (leaf (id_tok ''x'')), 2 + 1)"
    by (rule stack [rule_format, OF x])
  then have stacked: "parseFactor (replicate 2 (op_tok ''-'') @ [id_tok ''x'']) 0
      = Inr (UnaryOp ''-'' (UnaryOp ''-'' (Variable ''x'')), 3)"
    unfolding leaves twice by simp
  have "parseExpression [op_tok ''-'', id_tok ''a'', op_tok ''*'', num_tok ''2''] 0
      = Inr (BinaryOp ''*'' (UnaryOp ''-'' (leaf (id_tok ''a''))) (leaf (num_tok ''2'')), 4)"
    by (rule tighter [rule_format, OF a two times])
  then have bound: "parseExpression [op_tok ''-'', id_tok ''a'', op_tok ''*'', num_tok ''2''] 0
      = Inr (BinaryOp ''*'' (UnaryOp ''-'' (Variable ''a'')) (Number ''2''), 4)"
    unfolding leaves .
  from x tokens stacked a two times bound show ?thesis
    by (intro conjI)
qed

text \<open>
  C7. The unbalanced input \<open>(2+3\<close> fails in \<open>eat\<close>, which expects the operator \<open>)\<close> and
  finds the end of the tokens. The input \<open>2 3\<close> parses to the number 2 with the cursor at
  1 of 2 tokens, so the check after the parser fails with the extra-tokens error. Both
  requests are answered with status 400 and the message of the error.
\<close>

theorem C7_unbalanced_and_trailing:
  "tokenize ''(2+3'' = Inr [op_tok ''('', num_tok ''2'', op_tok ''+'', num_tok ''3'']
   \<and> parseExpression [op_tok ''('', num_tok ''2'', op_tok ''+'', num_tok ''3''] 0
     = Inl (Expected OPERATOR '')'' None)
   \<and> eat [op_tok ''('', num_tok ''2'', op_tok ''+'', num_tok ''3''] 4 OPERATOR '')''
     = Inl (Expected OPERATOR '')'' None)
   \<and> compile_with printer analyser (JString ''(2+3'')
     = \<lparr>status = 400, body = ErrorBody ''Expected OPERATOR ')' but got EOF''\<rparr>
   \<and> tokenize ''2 3'' = Inr [num_tok ''2'', num_tok ''3'']
   \<and> parseExpression [num_tok ''2'', num_tok ''3''] 0 = Inr (Number ''2'', 1)
   \<and> 1 \<noteq> length [num_tok ''2'', num_tok ''3'']
   \<and> pipeline printer analyser ''2 3'' = Inl ExtraTokens
   \<and> compile_with printer analyser (JString ''2 3'')
     = \<lparr>status = 400, body = ErrorBody ''Extra tokens after expression''\<rparr>"
  by (intro conjI; code_simp)

theorem C7_unbalanced_and_trailing_witness:
  "compile (JString ''(2+3'')
     = \<lparr>status = 400, body = ErrorBody ''Expected OPERATOR ')' but got EOF''\<rparr>
   \<and> compile (JString ''2 3'')
     = \<lparr>status = 400, body = ErrorBody ''Extra tokens after expression''\<rparr>"
  using C7_unbalanced_and_trailing [of "\<lambda>ast. printTree ast [] True True" semanticAnalysis]
  by (simp add: compile_def)

text \<open>
  C8. For \<open>x+2\<close> the analysis finds the one variable \<open>x\<close>; the report says
  \<open>symbolic (contains variables)\<close> and lists \<open>x\<close> as an undeclared symbol whose value is
  needed at runtime. For \<open>2+3\<close> it finds no variable; the report says \<open>(none)\<close>,
  \<open>numeric (can evaluate)\<close> and that the expression is fully evaluable at compile time.
\<close>

theorem C8_semantic_analysis:
  "tokenize ''x+2'' = Inr [id_tok ''x'', op_tok ''+'', num_tok ''2'']
   \<and> parseExpression [id_tok ''x'', op_tok ''+'', num_tok ''2''] 0
     = Inr (BinaryOp ''+'' (Variable ''x'') (Number ''2''), 3)
   \<and> walk (BinaryOp ''+'' (Variable ''x'') (Number ''2'')) fresh_analysis
     = \<lparr>variables = [''x''], constants = [''2''], operators = [''+''], nodeCount = 3\<rparr>
   \<and> semanticAnalysis (BinaryOp ''+'' (Variable ''x'') (Number ''2''))
     = glyph_dash @ glyph_dash @ '' Semantic Analysis Report '' @ glyph_dash @ glyph_dash
       @ ''\<newline>\<newline>AST Nodes     : 3\<newline>Variables     : x\<newline>Constants     : 2\<newline>Operators     : +''
       @ ''\<newline>Result Type   : symbolic (contains variables)\<newline>\<newline>''
       @ glyph_warning @ '' Undeclared symbols: x\<newline>  (values needed at runtime)''
   \<and> tokenize ''2+3'' = Inr [num_tok ''2'', op_tok ''+'', num_tok ''3'']
   \<and> parseExpression [num_tok ''2'', op_tok ''+'', num_tok ''3''] 0
     = Inr (BinaryOp ''+'' (Number ''2'') (Number ''3''), 3)
   \<and> walk (BinaryOp ''+'' (Number ''2'') (Number ''3'')) fresh_analysis
     = \<lparr>variables = [], constants = [''2'', ''3''], operators = [''+''], nodeCount = 3\<rparr>
   \<and> semanticAnalysis (BinaryOp ''+'' (Number ''2'') (Number ''3''))
     = glyph_dash @ glyph_dash @ '' Semantic Analysis Report '' @ glyph_dash @ glyph_dash
       @ ''\<newline>\<newline>AST Nodes     : 3\<newline>Variables     : (none)\<newline>Constants     : 2, 3\<newline>Operators     : +''
       @ ''\<newline>Result Type   : numeric (can evaluate)\<newline>\<newline>''
       @ glyph_check @ '' Expression is fully evaluable at compile time''"
  by (intro conjI; code_simp)

text \<open>
  C9. No state leaks between calls of \<open>compile\<close>. Whatever requests came before, the
  answer to a request is the answer it gets alone; so for every pair of expressions the
  second gets, after the first, what it gets alone. In every call the temporaries
  start at \<open>t0\<close>: for every tree, \<open>generateTAC\<close> gives one line per operation, numbered
  \<open>t0\<close>, \<open>t1\<close>, ... in order, and then the \<open>result\<close> line. In every call the accumulators
  start empty: what \<open>semanticAnalysis\<close> collects is the variables, constants, operators
  and node count of the tree it is given, and nothing else.
\<close>

theorem C9_no_state_between_calls:
  "(\<forall>first second. serve [first, second] = [compile first, compile second])
   \<and> (\<forall>before expression. last (serve (before @ [expression])) = compile expression)
   \<and> (\<forall>ast lines.
         generateTAC ast = Inr lines
         \<longrightarrow> length lines = count_operations ast + 1 \<and> numbered_from 0 (butlast lines)
             \<and> starts_with ''result = '' (last lines))
   \<and> (\<forall>ast. walk ast fresh_analysis
         = \<lparr>variables = add_all [] (node_variables ast), constants = node_constants ast,
            operators = node_operators ast, nodeCount = node_count ast\<rparr>)
   \<and> (\<forall>printer analyser.
         map_sum id res_intermediate (pipeline printer analyser ''a+1'') = Inr ''t0 = a + 1\<newline>result = t0''
         \<and> map_sum id res_intermediate (pipeline printer analyser ''b+2'') = Inr ''t0 = b + 2\<newline>result = t0'')"
proof (intro conjI allI impI)
  fix first second
  show "serve [first, second] = [compile first, compile second]"
    by simp
next
  fix before expression
  show "last (serve (before @ [expression])) = compile expression"
    by (simp add: serve_append)
next
  fix ast lines
  assume "generateTAC ast = Inr lines"
  then show "length lines = count_operations ast + 1" "numbered_from 0 (butlast lines)"
    "starts_with ''result = '' (last lines)"
    using generateTAC_numbered by blast+
next
  fix ast
  show "walk ast fresh_analysis
      = \<lparr>variables = add_all [] (node_variables ast), constants = node_constants ast,
         operators = node_operators ast, nodeCount = node_count ast\<rparr>"
    by (simp add: walk_from fresh_analysis_def)
next
  fix printer analyser :: "node \<Rightarrow> string"
  show "map_sum id res_intermediate (pipeline printer analyser ''a+1'') = Inr ''t0 = a + 1\<newline>result = t0''"
    by code_simp
  show "map_sum id res_intermediate (pipeline printer analyser ''b+2'') = Inr ''t0 = b + 2\<newline>result = t0''"
    by code_simp
qed

theorem C9_no_state_between_calls_witness:
  "generateTAC (BinaryOp ''+'' (Variable ''b'') (Number ''2'')) = Inr [''t0 = b + 2'', ''result = t0'']
   \<and> length [''t0 = b + 2'', ''result = t0'']
     = count_operations (BinaryOp ''+'' (Variable ''b'') (Number ''2'')) + 1
   \<and> numbered_from 0 (butlast [''t0 = b + 2'', ''result = t0''])
   \<and> starts_with ''result = '' (last [''t0 = b + 2'', ''result = t0''])"
proof -
  have run: "generateTAC (BinaryOp ''+'' (Variable ''b'') (Number ''2'')) = Inr [''t0 = b + 2'', ''result = t0'']"
    by code_simp
  have "\<forall>ast lines.
         generateTAC ast = Inr lines
         \<longrightarrow> length lines = count_operations ast + 1 \<and> numbered_from 0 (butlast lines)
             \<and> starts_with ''result = '' (last lines)"
    using C9_no_state_between_calls by (elim conjE)
  with run have "length [''t0 = b + 2'', ''result = t0'']
       = count_operations (BinaryOp ''+'' (Variable ''b'') (Number ''2'')) + 1
     \<and> numbered_from 0 (butlast [''t0 = b + 2'', ''result = t0''])
     \<and> starts_with ''result = '' (last [''t0 = b + 2'', ''result = t0''])"
    by blast
  with run show ?thesis by blast
qed

text \<open>
  C10. The empty string is falsy, so the presence check answers it as it answers a
  missing field: status 400, \<open>Missing or invalid expression\<close>. The pipeline is not run
  for it; had it run, it would have thrown \<open>Unexpected end of input\<close>, which is what the
  blank expression gets. This holds for both services of the repository, whatever
  the tree printer and the analyser.
\<close>

theorem C10_empty_expression_rejected:
  "truthy (JString '''') = False
   \<and> compile_with printer analyser (JString '''')
     = \<lparr>status = 400, body = ErrorBody ''Missing or invalid expression''\<rparr>
   \<and> compile_with printer analyser JUndefined = compile_with printer analyser (JString '''')
   \<and> tokenize '''' = Inr []
   \<and> pipeline printer analyser '''' = Inl UnexpectedEndOfInput
   \<and> message UnexpectedEndOfInput = ''Unexpected end of input''
   \<and> tokenize '' '' = Inr []
   \<and> parseFactor [] 0 = Inl UnexpectedEndOfInput
   \<and> compile_with printer analyser (JString '' '')
     = \<lparr>status = 400, body = ErrorBody ''Unexpected end of input''\<rparr>
   \<and> compile_with printer analyser (JString '''') \<noteq> compile_with printer analyser (JString '' '')"
  by (intro conjI; code_simp)

theorem C10_empty_expression_rejected_witness:
  "compile (JString '''') = \<lparr>status = 400, body = ErrorBody ''Missing or invalid expression''\<rparr>
   \<and> compile JUndefined = compile (JString '''')
   \<and> compile (JString '' '') = \<lparr>status = 400, body = ErrorBody ''Unexpected end of input''\<rparr>
   \<and> compile (JString '''') \<noteq> compile (JString '' '')"
  using C10_empty_expression_rejected [of "\<lambda>ast. printTree ast [] True True" semanticAnalysis]
  by (simp add: compile_def)

end
